theory Spec2Isabelle
  imports Main "HOL-Library.Multiset"
begin

section \<open>Values and exceptions of the program\<close>

text \<open>
  The program (\<^verbatim>\<open>download_minecraft_items.py\<close>) works on the values that
  \<^verbatim>\<open>response.json()\<close> returns: \<^verbatim>\<open>None\<close>, booleans, numbers, strings, lists and
  dictionaries. A dictionary is an association list in insertion order, the order in
  which Python iterates over it; its keys are strings. A \<^typ>\<open>char\<close> stands for one
  character of a Python string, so the model covers text of the 8-bit character range.
  Numbers are integers: a float would behave as an integer does at every operation of
  this program but printing.
\<close>

datatype json =
    JNull
  | JBool bool
  | JInt int
  | JStr string
  | JArr "json list"
  | JObj "(string \<times> json) list"

text \<open>The exceptions that the operations of the program raise.\<close>

datatype exn =
    KeyError
  | TypeError
  | AttributeError
  | IndexError
  | RequestException
  | JSONDecodeError
  | HTTPError
  | OSError

text \<open>Sequencing of steps that may raise: the first exception ends the computation.\<close>

definition thn :: "exn + 'a \<Rightarrow> ('a \<Rightarrow> exn + 'b) \<Rightarrow> exn + 'b" where
  "thn r f = (case r of Inl e \<Rightarrow> Inl e | Inr x \<Rightarrow> f x)"

section \<open>sanitize_filename\<close>

text \<open>
  \<^verbatim>\<open>invalid_chars = '<>:"/\\|?*'\<close>: less-than, greater-than, colon, double quote,
  slash, backslash, vertical bar, question mark, asterisk.
\<close>

definition invalid_chars :: string where
  "invalid_chars =
     [CHR ''<'', CHR ''>'', CHR '':'', CHR 0x22, CHR ''/'', CHR 0x5C, CHR ''|'', CHR ''?'', CHR ''*'']"

text \<open>\<^verbatim>\<open>s.replace(old, new)\<close> for a one-character \<^verbatim>\<open>old\<close>.\<close>

definition replace_char :: "char \<Rightarrow> char \<Rightarrow> string \<Rightarrow> string" where
  "replace_char old new s = map (\<lambda>c. if c = old then new else c) s"

text \<open>
  \<^verbatim>\<open>for char in invalid_chars: filename = filename.replace(char, '_')\<close>, then
  \<^verbatim>\<open>return filename[:255]\<close>.
\<close>

definition sanitize_filename :: "string \<Rightarrow> string" where
  "sanitize_filename filename =
     take 255 (foldl (\<lambda>f c. replace_char c (CHR ''_'') f) filename invalid_chars)"

section \<open>Python operations on values\<close>

text \<open>Truth value of a value in a condition (\<^verbatim>\<open>if x:\<close>).\<close>

fun truthy :: "json \<Rightarrow> bool" where
  "truthy JNull = False"
| "truthy (JBool b) = b"
| "truthy (JInt i) = (i \<noteq> 0)"
| "truthy (JStr s) = (s \<noteq> [])"
| "truthy (JArr xs) = (xs \<noteq> [])"
| "truthy (JObj kv) = (kv \<noteq> [])"

text \<open>\<^verbatim>\<open>sub in s\<close> for two strings: \<^verbatim>\<open>sub\<close> occurs in \<^verbatim>\<open>s\<close> as a contiguous part.\<close>

fun py_in_str :: "string \<Rightarrow> string \<Rightarrow> bool" where
  "py_in_str sub [] = (sub = [])"
| "py_in_str sub (c # cs) = (take (length sub) (c # cs) = sub \<or> py_in_str sub cs)"

text \<open>
  \<^verbatim>\<open>k in x\<close> for a string \<^verbatim>\<open>k\<close>: a key of a dictionary, an element of a list, a part
  of a string; \<^verbatim>\<open>None\<close>, booleans and numbers are not iterable.
\<close>

fun py_contains :: "string \<Rightarrow> json \<Rightarrow> exn + bool" where
  "py_contains k (JObj kv) = Inr (k \<in> set (map fst kv))"
| "py_contains k (JArr xs) = Inr (JStr k \<in> set xs)"
| "py_contains k (JStr s) = Inr (py_in_str k s)"
| "py_contains k JNull = Inl TypeError"
| "py_contains k (JBool b) = Inl TypeError"
| "py_contains k (JInt i) = Inl TypeError"

text \<open>
  \<^verbatim>\<open>x[k]\<close> for a string \<^verbatim>\<open>k\<close>: the value of a dictionary at \<^verbatim>\<open>k\<close>, KeyError when the
  key is missing; every other value rejects a string as index.
\<close>

fun py_getitem :: "json \<Rightarrow> string \<Rightarrow> exn + json" where
  "py_getitem (JObj kv) k = (case map_of kv k of Some v \<Rightarrow> Inr v | None \<Rightarrow> Inl KeyError)"
| "py_getitem JNull k = Inl TypeError"
| "py_getitem (JBool b) k = Inl TypeError"
| "py_getitem (JInt i) k = Inl TypeError"
| "py_getitem (JStr s) k = Inl TypeError"
| "py_getitem (JArr xs) k = Inl TypeError"

text \<open>\<^verbatim>\<open>x[0]\<close>. A dictionary read from JSON has string keys only, so the key 0 is missing.\<close>

fun py_index0 :: "json \<Rightarrow> exn + json" where
  "py_index0 (JArr xs) = (case xs of [] \<Rightarrow> Inl IndexError | x # _ \<Rightarrow> Inr x)"
| "py_index0 (JStr s) = (case s of [] \<Rightarrow> Inl IndexError | c # _ \<Rightarrow> Inr (JStr [c]))"
| "py_index0 (JObj kv) = Inl KeyError"
| "py_index0 JNull = Inl TypeError"
| "py_index0 (JBool b) = Inl TypeError"
| "py_index0 (JInt i) = Inl TypeError"

text \<open>
  \<^verbatim>\<open>xs[i]\<close> for a list and an element \<^verbatim>\<open>i\<close> of it used as index: an integer (a boolean
  counts as 0 or 1) indexes from the front, a negative one from the back; anything else
  is a TypeError.
\<close>

definition int_index :: "json list \<Rightarrow> int \<Rightarrow> exn + json" where
  "int_index xs n =
     (if 0 \<le> n \<and> n < int (length xs) then Inr (xs ! nat n)
      else if n < 0 \<and> - int (length xs) \<le> n then Inr (xs ! nat (int (length xs) + n))
      else Inl IndexError)"

fun list_getitem :: "json list \<Rightarrow> json \<Rightarrow> exn + json" where
  "list_getitem xs (JInt n) = int_index xs n"
| "list_getitem xs (JBool b) = int_index xs (if b then 1 else 0)"
| "list_getitem xs JNull = Inl TypeError"
| "list_getitem xs (JStr s) = Inl TypeError"
| "list_getitem xs (JArr ys) = Inl TypeError"
| "list_getitem xs (JObj kv) = Inl TypeError"

text \<open>\<^verbatim>\<open>for v in x\<close>: the elements of a list, the keys of a dictionary, the characters of a string.\<close>

fun py_iter :: "json \<Rightarrow> exn + json list" where
  "py_iter (JArr xs) = Inr xs"
| "py_iter (JObj kv) = Inr (map (\<lambda>(k, v). JStr k) kv)"
| "py_iter (JStr s) = Inr (map (\<lambda>c. JStr [c]) s)"
| "py_iter JNull = Inl TypeError"
| "py_iter (JBool b) = Inl TypeError"
| "py_iter (JInt i) = Inl TypeError"

text \<open>
  \<^verbatim>\<open>for page_id in pages: page = pages[page_id]\<close>: the outcome of \<^verbatim>\<open>pages[page_id]\<close>
  at each round, in order. A dictionary yields its values (its keys are distinct, as
  those of a Python dictionary are); a list is indexed by its own elements; a string
  rejects its characters as indices.
\<close>

fun py_each :: "json \<Rightarrow> exn + (exn + json) list" where
  "py_each (JObj kv) = Inr (map (\<lambda>(k, v). Inr v) kv)"
| "py_each (JArr xs) = Inr (map (list_getitem xs) xs)"
| "py_each (JStr s) = Inr (map (\<lambda>c. Inl TypeError) s)"
| "py_each JNull = Inl TypeError"
| "py_each (JBool b) = Inl TypeError"
| "py_each (JInt i) = Inl TypeError"

text \<open>
  \<^verbatim>\<open>str.lower()\<close> on the 8-bit character range: A to Z, and the accented capitals
  0xC0 to 0xDE but the multiplication sign 0xD7, move down by 32.
\<close>

definition lower_char :: "char \<Rightarrow> char" where
  "lower_char c =
     (let n = (of_char c :: nat)
      in if (65 \<le> n \<and> n \<le> 90) \<or> (192 \<le> n \<and> n \<le> 222 \<and> n \<noteq> 215) then char_of (n + 32) else c)"

definition lower :: "string \<Rightarrow> string" where
  "lower s = map lower_char s"

text \<open>\<^verbatim>\<open>x.lower()\<close>: only a string has the method.\<close>

fun py_lower :: "json \<Rightarrow> exn + string" where
  "py_lower (JStr s) = Inr (lower s)"
| "py_lower JNull = Inl AttributeError"
| "py_lower (JBool b) = Inl AttributeError"
| "py_lower (JInt i) = Inl AttributeError"
| "py_lower (JArr xs) = Inl AttributeError"
| "py_lower (JObj kv) = Inl AttributeError"

section \<open>The remote wiki, the file system and the log\<close>

text \<open>
  The program reads the remote wiki and writes files and log lines. The state it acts
  on is a \<open>world\<close>: the number of HTTP requests sent so far, the files with their
  contents, the directories, and the log. What the outside answers is an \<open>env\<close>:
  \<^item> \<open>api n params\<close> is the outcome of
    \<^verbatim>\<open>requests.get(API_BASE_URL, params=params)\<close> followed by \<^verbatim>\<open>response.json()\<close>
    when it is the request number \<open>n\<close> of the run: the decoded document, or the
    exception raised by either call;
  \<^item> \<open>http n url\<close> is the outcome of \<^verbatim>\<open>requests.get(url, timeout=10)\<close>: the status code
    and the body, or the exception raised (a timeout, a refused connection);
  \<^item> \<open>disk path\<close> tells how opening \<open>path\<close> for writing and writing to it goes;
  \<^item> \<open>makedirs_ok\<close> tells whether \<^verbatim>\<open>os.makedirs\<close> succeeds;
  \<^item> \<open>unquote\<close> is \<^verbatim>\<open>urllib.parse.unquote\<close> on strings and \<open>repr\<close> the text of a value
    that is not a string inside an f-string, both taken from the Python library;
  \<^item> \<open>schedule\<close> is the order in which the tasks of the worker pool complete.
\<close>

type_synonym params = "(string \<times> json) list"

datatype write_outcome =
    OpenFails
  | WriteFails nat
  | WriteOk

datatype log_event =
    Listing
  | ItemsFound nat
  | ListError exn
  | ImageError json exn
  | UrlError json exn
  | Downloaded string
  | DownloadError string exn
  | CatalogSaved string
  | CatalogError exn
  | ItemProcessed json
  | ItemInfoObtained json
  | ItemFailed json
  | Summary nat bool nat nat

record world =
  clock :: nat
  files :: "string \<rightharpoonup> string"
  dirs :: "string set"
  log :: "log_event list"

record env =
  api :: "nat \<Rightarrow> params \<Rightarrow> exn + json"
  http :: "nat \<Rightarrow> string \<Rightarrow> exn + nat \<times> string"
  disk :: "string \<Rightarrow> write_outcome"
  makedirs_ok :: bool
  unquote :: "string \<Rightarrow> string"
  repr :: "json \<Rightarrow> string"
  schedule :: "json list \<Rightarrow> json list"

definition logging :: "log_event \<Rightarrow> world \<Rightarrow> world" where
  "logging ev w = w\<lparr>log := log w @ [ev]\<rparr>"

definition api_get :: "env \<Rightarrow> params \<Rightarrow> world \<Rightarrow> (exn + json) \<times> world" where
  "api_get env params w = (api env (clock w) params, w\<lparr>clock := Suc (clock w)\<rparr>)"

definition http_get :: "env \<Rightarrow> string \<Rightarrow> world \<Rightarrow> (exn + nat \<times> string) \<times> world" where
  "http_get env url w = (http env (clock w) url, w\<lparr>clock := Suc (clock w)\<rparr>)"

text \<open>
  \<^verbatim>\<open>with open(path, 'w') as f: f.write(content)\<close>. Opening creates the file or empties
  an existing one; a write that fails leaves the part written so far.
\<close>

definition write_file :: "env \<Rightarrow> string \<Rightarrow> string \<Rightarrow> world \<Rightarrow> exn option \<times> world" where
  "write_file env path content w =
     (case disk env path of
        OpenFails \<Rightarrow> (Some OSError, w)
      | WriteFails n \<Rightarrow> (Some OSError, w\<lparr>files := (files w)(path \<mapsto> take n content)\<rparr>)
      | WriteOk \<Rightarrow> (None, w\<lparr>files := (files w)(path \<mapsto> content)\<rparr>))"

text \<open>The functions of \<^verbatim>\<open>os.path\<close> the program calls, on POSIX paths.\<close>

definition slash :: char where
  "slash = CHR ''/''"

definition basename :: "string \<Rightarrow> string" where
  "basename p = rev (takeWhile (\<lambda>c. c \<noteq> slash) (rev p))"

definition dirname :: "string \<Rightarrow> string" where
  "dirname p =
     (let head = rev (dropWhile (\<lambda>c. c \<noteq> slash) (rev p))
      in if head \<noteq> [] \<and> \<not> list_all (\<lambda>c. c = slash) head
         then rev (dropWhile (\<lambda>c. c = slash) (rev head)) else head)"

definition path_join :: "string \<Rightarrow> string \<Rightarrow> string" where
  "path_join a b =
     (if b \<noteq> [] \<and> hd b = slash then b
      else if a = [] \<or> last a = slash then a @ b
      else a @ [slash] @ b)"

section \<open>Configuration\<close>

definition SAVE_DIR :: string where
  "SAVE_DIR = ''scripts/minecraft_items''"

definition ITEMS_PER_REQUEST :: int where
  "ITEMS_PER_REQUEST = 50"

section \<open>ensure_dir\<close>

text \<open>\<^verbatim>\<open>os.makedirs\<close> creates the directory and the missing ones above it.\<close>

fun ancestors :: "string \<Rightarrow> string \<Rightarrow> string list" where
  "ancestors acc [] = (if acc = [] then [] else [acc])"
| "ancestors acc (c # cs) =
     (if c = slash \<and> acc \<noteq> [] then acc # ancestors (acc @ [c]) cs
      else ancestors (acc @ [c]) cs)"

definition ensure_dir :: "env \<Rightarrow> string \<Rightarrow> world \<Rightarrow> exn option \<times> world" where
  "ensure_dir env directory w =
     (if directory \<in> dirs w \<or> files w directory \<noteq> None then (None, w)
      else if makedirs_ok env then (None, w\<lparr>dirs := dirs w \<union> set (ancestors [] directory)\<rparr>)
      else (Some OSError, w))"

section \<open>get_item_list\<close>

text \<open>
  The parameters of the request; \<^verbatim>\<open>cmcontinue\<close> is added when the token is true
  (\<^verbatim>\<open>if continue_token:\<close>). The token starts as \<^verbatim>\<open>None\<close>.
\<close>

definition list_params :: "json \<Rightarrow> params" where
  "list_params continue_token =
     [(''action'', JStr ''query''), (''format'', JStr ''json''),
      (''list'', JStr ''categorymembers''), (''cmtitle'', JStr ''Category:Items''),
      (''cmlimit'', JInt ITEMS_PER_REQUEST), (''cmtype'', JStr ''page'')]
     @ (if truthy continue_token then [(''cmcontinue'', continue_token)] else [])"

text \<open>
  \<^verbatim>\<open>if 'query' in data and 'categorymembers' in data['query']:
      items.extend(data['query']['categorymembers'])\<close>
\<close>

definition extend_members :: "json \<Rightarrow> json list \<Rightarrow> exn + json list" where
  "extend_members data items =
     thn (py_contains ''query'' data) (\<lambda>has_query.
       if has_query then
         thn (py_getitem data ''query'') (\<lambda>query.
         thn (py_contains ''categorymembers'' query) (\<lambda>has_members.
           if has_members then
             thn (py_getitem query ''categorymembers'') (\<lambda>members.
             thn (py_iter members) (\<lambda>ms. Inr (items @ ms)))
           else Inr items))
       else Inr items)"

text \<open>
  \<^verbatim>\<open>if 'continue' in data and 'cmcontinue' in data['continue']:
      continue_token = data['continue']['cmcontinue']
  else: break\<close>
  The result is the new token, or \<open>None\<close> for \<^verbatim>\<open>break\<close>.
\<close>

definition next_token :: "json \<Rightarrow> exn + json option" where
  "next_token data =
     thn (py_contains ''continue'' data) (\<lambda>has_continue.
       if has_continue then
         thn (py_getitem data ''continue'') (\<lambda>cont.
         thn (py_contains ''cmcontinue'' cont) (\<lambda>has_token.
           if has_token then
             thn (py_getitem cont ''cmcontinue'') (\<lambda>token. Inr (Some token))
           else Inr None))
       else Inr None)"

text \<open>
  The \<^verbatim>\<open>while True\<close> loop. An exception anywhere in the \<^verbatim>\<open>try\<close> block is logged and
  ends the loop with the items gathered up to that statement. The loop runs as long as
  the wiki hands out tokens, so it need not end: not returning is the value \<open>None\<close>.
  The pause between two requests (\<^verbatim>\<open>time.sleep\<close>) takes time and changes nothing else.
\<close>

partial_function (option) list_loop ::
  "env \<Rightarrow> json list \<Rightarrow> json \<Rightarrow> world \<Rightarrow> (json list \<times> world) option" where
  "list_loop env items continue_token w =
     (case api_get env (list_params continue_token) w of
        (Inl e, w1) \<Rightarrow> Some (items, logging (ListError e) w1)
      | (Inr data, w1) \<Rightarrow>
          (case extend_members data items of
             Inl e \<Rightarrow> Some (items, logging (ListError e) w1)
           | Inr items1 \<Rightarrow>
               (case next_token data of
                  Inl e \<Rightarrow> Some (items1, logging (ListError e) w1)
                | Inr None \<Rightarrow> Some (items1, w1)
                | Inr (Some token) \<Rightarrow> list_loop env items1 token w1)))"

definition get_item_list :: "env \<Rightarrow> world \<Rightarrow> (json list \<times> world) option" where
  "get_item_list env w = list_loop env [] JNull w"

section \<open>get_item_image\<close>

definition image_params :: "json \<Rightarrow> params" where
  "image_params title =
     [(''action'', JStr ''query''), (''format'', JStr ''json''),
      (''prop'', JStr ''images''), (''titles'', title)]"

text \<open>
  The test of line 95:
  \<^verbatim>\<open>'png' in image['title'].lower() or 'gif' in image['title'].lower()\<close>.
\<close>

definition png_or_gif :: "string \<Rightarrow> bool" where
  "png_or_gif lowered = (py_in_str ''png'' lowered \<or> py_in_str ''gif'' lowered)"

text \<open>
  The loop over the images of one page. \<open>Some t\<close> is \<^verbatim>\<open>return image['title']\<close>,
  \<open>None\<close> the end of the loop without a return.
\<close>

fun scan_images :: "json list \<Rightarrow> exn + json option" where
  "scan_images [] = Inr None"
| "scan_images (img # rest) =
     thn (py_getitem img ''title'') (\<lambda>title.
     thn (py_lower title) (\<lambda>lowered.
       if png_or_gif lowered then Inr (Some title) else scan_images rest))"

text \<open>
  The loop over the pages:
  \<^verbatim>\<open>for page_id in pages:
      page = pages[page_id]
      if 'images' in page:
          for image in page['images']: ...\<close>
\<close>

fun scan_pages :: "(exn + json) list \<Rightarrow> exn + json option" where
  "scan_pages [] = Inr None"
| "scan_pages (p # rest) =
     thn p (\<lambda>page.
     thn (py_contains ''images'' page) (\<lambda>has_images.
       if has_images then
         thn (py_getitem page ''images'') (\<lambda>images.
         thn (py_iter images) (\<lambda>imgs.
         thn (scan_images imgs) (\<lambda>found.
           case found of Some t \<Rightarrow> Inr (Some t) | None \<Rightarrow> scan_pages rest)))
       else scan_pages rest))"

text \<open>The \<^verbatim>\<open>try\<close> block once the document is there.\<close>

definition find_image :: "json \<Rightarrow> exn + json option" where
  "find_image data =
     thn (py_getitem data ''query'') (\<lambda>query.
     thn (py_getitem query ''pages'') (\<lambda>pages.
     thn (py_each pages) scan_pages))"

text \<open>
  \<^verbatim>\<open>item['title']\<close> in the parameters is read before the \<^verbatim>\<open>try\<close>: an item without a
  title raises out of the function. Inside the \<^verbatim>\<open>try\<close> every exception is logged and
  the function returns \<^verbatim>\<open>None\<close>.
\<close>

definition get_item_image :: "env \<Rightarrow> json \<Rightarrow> world \<Rightarrow> (exn + json) \<times> world" where
  "get_item_image env item w =
     (case py_getitem item ''title'' of
        Inl e \<Rightarrow> (Inl e, w)
      | Inr title \<Rightarrow>
          (case api_get env (image_params title) w of (resp, w1) \<Rightarrow>
             (case thn resp find_image of
                Inr (Some t) \<Rightarrow> (Inr t, w1)
              | Inr None \<Rightarrow> (Inr JNull, w1)
              | Inl e \<Rightarrow> (Inr JNull, logging (ImageError title e) w1))))"

section \<open>get_image_url\<close>

definition url_params :: "json \<Rightarrow> params" where
  "url_params image_title =
     [(''action'', JStr ''query''), (''format'', JStr ''json''),
      (''prop'', JStr ''imageinfo''), (''iiprop'', JStr ''url''), (''titles'', image_title)]"

text \<open>
  \<^verbatim>\<open>for page_id in pages:
      page = pages[page_id]
      if 'imageinfo' in page:
          return page['imageinfo'][0]['url']\<close>
\<close>

fun scan_imageinfo :: "(exn + json) list \<Rightarrow> exn + json option" where
  "scan_imageinfo [] = Inr None"
| "scan_imageinfo (p # rest) =
     thn p (\<lambda>page.
     thn (py_contains ''imageinfo'' page) (\<lambda>has_info.
       if has_info then
         thn (py_getitem page ''imageinfo'') (\<lambda>info.
         thn (py_index0 info) (\<lambda>first.
         thn (py_getitem first ''url'') (\<lambda>url. Inr (Some url))))
       else scan_imageinfo rest))"

definition find_url :: "json \<Rightarrow> exn + json option" where
  "find_url data =
     thn (py_getitem data ''query'') (\<lambda>query.
     thn (py_getitem query ''pages'') (\<lambda>pages.
     thn (py_each pages) scan_imageinfo))"

definition get_image_url :: "env \<Rightarrow> json \<Rightarrow> world \<Rightarrow> json \<times> world" where
  "get_image_url env image_title w =
     (case api_get env (url_params image_title) w of (resp, w1) \<Rightarrow>
        (case thn resp find_url of
           Inr (Some url) \<Rightarrow> (url, w1)
         | Inr None \<Rightarrow> (JNull, w1)
         | Inl e \<Rightarrow> (JNull, logging (UrlError image_title e) w1)))"

section \<open>download_image\<close>

text \<open>
  \<^verbatim>\<open>response.raise_for_status()\<close> of the requests library raises HTTPError for the
  client errors 400 to 499 and the server errors 500 to 599, and for no other status.
\<close>

definition raise_for_status :: "nat \<Rightarrow> exn option" where
  "raise_for_status status = (if 400 \<le> status \<and> status < 600 then Some HTTPError else None)"

text \<open>Every exception of the \<^verbatim>\<open>try\<close> block is logged and turned into \<^verbatim>\<open>False\<close>.\<close>

definition download_image :: "env \<Rightarrow> string \<Rightarrow> string \<Rightarrow> world \<Rightarrow> bool \<times> world" where
  "download_image env url filename w =
     (case http_get env url w of
        (Inl e, w1) \<Rightarrow> (False, logging (DownloadError url e) w1)
      | (Inr (status, content), w1) \<Rightarrow>
          (case raise_for_status status of
             Some e \<Rightarrow> (False, logging (DownloadError url e) w1)
           | None \<Rightarrow>
               (case write_file env filename content w1 of
                  (Some e, w2) \<Rightarrow> (False, logging (DownloadError url e) w2)
                | (None, w2) \<Rightarrow> (True, logging (Downloaded filename) w2))))"

section \<open>process_item\<close>

record item_info =
  name :: json
  imageUrl :: json
  localPath :: json

text \<open>A value inside an f-string: a string stands for itself.\<close>

definition format_value :: "env \<Rightarrow> json \<Rightarrow> string" where
  "format_value env v = (case v of JStr s \<Rightarrow> s | _ \<Rightarrow> repr env v)"

text \<open>
  \<^verbatim>\<open>sanitize_filename(f"{item['title']}_{os.path.basename(unquote(image_url))}")\<close>
  for a URL that is a string.
\<close>

definition derive_filename :: "env \<Rightarrow> json \<Rightarrow> string \<Rightarrow> string" where
  "derive_filename env title url =
     sanitize_filename (format_value env title @ ''_'' @ basename (unquote env url))"

text \<open>
  No \<^verbatim>\<open>try\<close> surrounds the body: what \<open>get_item_image\<close> raises leaves the function, and
  so does the exception of \<^verbatim>\<open>unquote\<close> (or of \<^verbatim>\<open>os.path.basename\<close>) on a URL that is
  true but not a string. The path is stored in \<open>localPath\<close> before the download starts.
\<close>

definition process_item ::
  "env \<Rightarrow> json \<Rightarrow> bool \<Rightarrow> world \<Rightarrow> (exn + bool \<times> item_info) \<times> world" where
  "process_item env item download_files w =
     (case get_item_image env item w of
        (Inl e, w1) \<Rightarrow> (Inl e, w1)
      | (Inr image_title, w1) \<Rightarrow>
          (case py_getitem item ''title'' of
             Inl e \<Rightarrow> (Inl e, w1)
           | Inr title \<Rightarrow>
               (let item_info = \<lparr>name = title, imageUrl = JNull, localPath = JNull\<rparr> in
                if truthy image_title then
                  (case get_image_url env image_title w1 of (image_url, w2) \<Rightarrow>
                     if truthy image_url then
                       (let item_info = item_info\<lparr>imageUrl := image_url\<rparr> in
                        if download_files then
                          (case image_url of
                             JStr url \<Rightarrow>
                               (let filename = derive_filename env title url;
                                    filepath = path_join SAVE_DIR filename;
                                    item_info = item_info\<lparr>localPath := JStr filepath\<rparr>
                                in case download_image env url filepath w2 of (ok, w3) \<Rightarrow>
                                     if ok then (Inr (True, item_info), w3)
                                     else (Inr (False, item_info), w3))
                           | _ \<Rightarrow> (Inl TypeError, w2))
                        else (Inr (True, item_info), w2))
                     else (Inr (False, item_info), w2))
                else (Inr (False, item_info), w1))))"

section \<open>save_items_json\<close>

text \<open>
  \<^verbatim>\<open>json.dump(obj, f, indent=2, ensure_ascii=False)\<close> of the Python library. A string
  is written between double quotes; the quote, the backslash and the control characters
  below 0x20 are escaped and every other character is written as it is.
\<close>

definition backslash :: char where
  "backslash = CHR 0x5C"

definition dquote :: char where
  "dquote = CHR 0x22"

definition hex_digit :: "nat \<Rightarrow> char" where
  "hex_digit h = (if h < 10 then char_of (48 + h) else char_of (87 + h))"

definition escape_char :: "char \<Rightarrow> string" where
  "escape_char c =
     (let n = (of_char c :: nat) in
      if c = backslash then [backslash, backslash]
      else if c = dquote then [backslash, dquote]
      else if n = 8 then [backslash, CHR ''b'']
      else if n = 12 then [backslash, CHR ''f'']
      else if n = 10 then [backslash, CHR ''n'']
      else if n = 13 then [backslash, CHR ''r'']
      else if n = 9 then [backslash, CHR ''t'']
      else if n < 32 then [backslash, CHR ''u'', CHR ''0'', CHR ''0'', hex_digit (n div 16), hex_digit (n mod 16)]
      else [c])"

definition encode_basestring :: "string \<Rightarrow> string" where
  "encode_basestring s = [dquote] @ concat (map escape_char s) @ [dquote]"

fun digits :: "nat \<Rightarrow> string" where
  "digits n = (if n < 10 then [char_of (48 + n)] else digits (n div 10) @ [char_of (48 + n mod 10)])"

declare digits.simps [simp del]

definition str_int :: "int \<Rightarrow> string" where
  "str_int i = (if i < 0 then CHR ''-'' # digits (nat (- i)) else digits (nat i))"

definition newline_indent :: "nat \<Rightarrow> string" where
  "newline_indent level = CHR 0x0A # replicate (2 * level) CHR '' ''"

fun join_with :: "string \<Rightarrow> string list \<Rightarrow> string" where
  "join_with sep [] = []"
| "join_with sep [x] = x"
| "join_with sep (x # y # ys) = x @ sep @ join_with sep (y # ys)"

fun dumps :: "nat \<Rightarrow> json \<Rightarrow> string" where
  "dumps level JNull = ''null''"
| "dumps level (JBool b) = (if b then ''true'' else ''false'')"
| "dumps level (JInt i) = str_int i"
| "dumps level (JStr s) = encode_basestring s"
| "dumps level (JArr xs) =
     (if xs = [] then ''[]''
      else ''['' @ newline_indent (Suc level)
           @ join_with ('','' @ newline_indent (Suc level)) (map (dumps (Suc level)) xs)
           @ newline_indent level @ '']'')"
| "dumps level (JObj kv) =
     (if kv = [] then ''{}''
      else ''{'' @ newline_indent (Suc level)
           @ join_with ('','' @ newline_indent (Suc level))
               (map (\<lambda>(k, v). encode_basestring k @ '': '' @ dumps (Suc level) v) kv)
           @ newline_indent level @ ''}'')"

text \<open>The dictionary \<^verbatim>\<open>item_info\<close>, its keys in the order the program inserts them.\<close>

definition info_json :: "item_info \<Rightarrow> json" where
  "info_json info =
     JObj [(''name'', name info), (''imageUrl'', imageUrl info), (''localPath'', localPath info)]"

definition json_path :: string where
  "json_path = path_join (dirname SAVE_DIR) ''minecraft_items.json''"

definition successful_items :: "item_info list \<Rightarrow> item_info list" where
  "successful_items infos = filter (\<lambda>item. imageUrl item \<noteq> JNull) infos"

definition save_items_json :: "env \<Rightarrow> item_info list \<Rightarrow> world \<Rightarrow> world" where
  "save_items_json env infos w =
     (case write_file env json_path (dumps 0 (JArr (map info_json (successful_items infos)))) w of
        (None, w1) \<Rightarrow> logging (CatalogSaved json_path) w1
      | (Some e, w1) \<Rightarrow> logging (CatalogError e) w1)"

section \<open>main\<close>

text \<open>
  The worker pool. One task per item is submitted, all of them before any result is
  read. A task runs \<open>process_item\<close> and ends with its result or with the exception it
  raised. The tasks are taken to run one after the other in the order in which they
  complete (\<open>completed\<close> lists the items in that order): tasks share nothing but the
  files they write.
\<close>

fun run_tasks ::
  "env \<Rightarrow> bool \<Rightarrow> json list \<Rightarrow> world \<Rightarrow> (json \<times> (exn + bool \<times> item_info)) list \<times> world" where
  "run_tasks env download_files [] w = ([], w)"
| "run_tasks env download_files (item # rest) w =
     (case process_item env item download_files w of (r, w1) \<Rightarrow>
        (case run_tasks env download_files rest w1 of (rs, w2) \<Rightarrow> ((item, r) # rs, w2)))"

record tally =
  successful_downloads :: nat
  failed_downloads :: nat
  items_info :: "item_info list"

text \<open>
  \<^verbatim>\<open>for future in as_completed(future_to_item):
      success, item_info = future.result()
      items_info.append(item_info)
      ...\<close>
  \<^verbatim>\<open>future.result()\<close> raises what the task raised; nothing catches it, so the loop ends
  there and the exception leaves \<open>main\<close>. The first component of the result is that
  exception, if any; the tally holds what had been collected.
\<close>

fun collect ::
  "bool \<Rightarrow> (json \<times> (exn + bool \<times> item_info)) list \<Rightarrow> tally \<Rightarrow> world \<Rightarrow> (exn option \<times> tally) \<times> world" where
  "collect download_files [] t w = ((None, t), w)"
| "collect download_files ((item, r) # rest) t w =
     (case r of
        Inl e \<Rightarrow> ((Some e, t), w)
      | Inr (success, item_info) \<Rightarrow>
          (let t1 = t\<lparr>items_info := items_info t @ [item_info]\<rparr> in
           if success then
             collect download_files rest (t1\<lparr>successful_downloads := Suc (successful_downloads t1)\<rparr>)
               (logging (if download_files then ItemProcessed (name item_info)
                         else ItemInfoObtained (name item_info)) w)
           else
             (case py_getitem item ''title'' of
                Inl e \<Rightarrow> ((Some e, t1\<lparr>failed_downloads := Suc (failed_downloads t1)\<rparr>), w)
              | Inr title \<Rightarrow>
                  collect download_files rest (t1\<lparr>failed_downloads := Suc (failed_downloads t1)\<rparr>)
                    (logging (ItemFailed title) w))))"

definition empty_tally :: tally where
  "empty_tally = \<lparr>successful_downloads = 0, failed_downloads = 0, items_info = []\<rparr>"

text \<open>
  Lines 192 to 215: the tasks, then the loop over their results. When the loop is left
  by an exception, the pool still waits for every task before the exception goes on,
  so all tasks have run in either case.
\<close>

definition process_all ::
  "env \<Rightarrow> bool \<Rightarrow> json list \<Rightarrow> world \<Rightarrow> (exn option \<times> tally) \<times> world" where
  "process_all env download_files completed w =
     (case run_tasks env download_files completed w of (results, w1) \<Rightarrow>
        collect download_files results empty_tally w1)"

text \<open>
  The whole run. The result is \<open>None\<close> when the listing never ends; otherwise the
  exception that ended the run, if any, and the world it leaves.
\<close>

definition main :: "env \<Rightarrow> bool \<Rightarrow> world \<Rightarrow> (exn option \<times> world) option" where
  "main env download_files w =
     (case (if download_files then ensure_dir env SAVE_DIR w else (None, w)) of
        (Some e, w1) \<Rightarrow> Some (Some e, w1)
      | (None, w1) \<Rightarrow>
          (case get_item_list env (logging Listing w1) of
             None \<Rightarrow> None
           | Some (items, w2) \<Rightarrow>
               (case process_all env download_files (schedule env items)
                       (logging (ItemsFound (length items)) w2) of
                  ((Some e, t), w3) \<Rightarrow> Some (Some e, w3)
                | ((None, t), w3) \<Rightarrow>
                    Some (None,
                      logging (Summary (length items) download_files
                                 (successful_downloads t) (failed_downloads t))
                        (save_items_json env (items_info t) w3)))))"

declare list_loop.simps [code]

section \<open>Reading the answers of the wiki\<close>

text \<open>
  The answers the wiki gives when it keeps to its interface, read field by field. The
  properties below are stated for such answers; extra fields are allowed.
\<close>

text \<open>
  The answer to a page-images query, \<^verbatim>\<open>{query: {pages: {id: {images?: [{title}, ...]}}}}\<close>:
  the titles of the images, page after page, in the order of the answer.
\<close>

fun image_title_list :: "json list \<Rightarrow> string list option" where
  "image_title_list [] = Some []"
| "image_title_list (img # rest) =
     (case py_getitem img ''title'' of
        Inr (JStr t) \<Rightarrow> map_option ((#) t) (image_title_list rest)
      | _ \<Rightarrow> None)"

definition page_image_titles :: "json \<Rightarrow> string list option" where
  "page_image_titles page =
     (case page of
        JObj kv \<Rightarrow>
          (case map_of kv ''images'' of
             None \<Rightarrow> Some []
           | Some (JArr imgs) \<Rightarrow> image_title_list imgs
           | Some _ \<Rightarrow> None)
      | _ \<Rightarrow> None)"

fun pages_image_titles :: "json list \<Rightarrow> string list option" where
  "pages_image_titles [] = Some []"
| "pages_image_titles (page # rest) =
     (case page_image_titles page of
        None \<Rightarrow> None
      | Some ts \<Rightarrow> map_option ((@) ts) (pages_image_titles rest))"

definition listed_image_titles :: "json \<Rightarrow> string list option" where
  "listed_image_titles data =
     (case py_getitem data ''query'' of
        Inr query \<Rightarrow>
          (case py_getitem query ''pages'' of
             Inr (JObj pages) \<Rightarrow> pages_image_titles (map snd pages)
           | _ \<Rightarrow> None)
      | _ \<Rightarrow> None)"

text \<open>The first title whose lower-case form contains \<^verbatim>\<open>png\<close> or \<^verbatim>\<open>gif\<close>, or \<^verbatim>\<open>None\<close>.\<close>

definition first_png_or_gif :: "string list \<Rightarrow> json" where
  "first_png_or_gif ts =
     (case find (\<lambda>t. png_or_gif (lower t)) ts of Some t \<Rightarrow> JStr t | None \<Rightarrow> JNull)"

text \<open>
  The answer to a category-members query,
  \<^verbatim>\<open>{query: {categorymembers: [...]}, continue?: {cmcontinue}}\<close>: the members of the
  page and the continuation token, if the answer carries one.
\<close>

definition listing_page :: "json \<Rightarrow> (json list \<times> json option) option" where
  "listing_page data =
     (case data of
        JObj kv \<Rightarrow>
          (case map_of kv ''query'' of
             Some (JObj query) \<Rightarrow>
               (case map_of query ''categorymembers'' of
                  Some (JArr members) \<Rightarrow>
                    (case map_of kv ''continue'' of
                       None \<Rightarrow> Some (members, None)
                     | Some (JObj cont) \<Rightarrow> Some (members, map_of cont ''cmcontinue'')
                     | Some _ \<Rightarrow> None)
                | _ \<Rightarrow> None)
           | _ \<Rightarrow> None)
      | _ \<Rightarrow> None)"

section \<open>Listings as the wiki serves them\<close>

text \<open>
  A paginated listing as the wiki serves it: pages that each carry a continuation
  token, and then either a last page without a token or a request that raises.
  \<open>serves env n token pages ending\<close> holds when, from request number \<open>n\<close> on and for
  the requests the program sends, starting with \<open>token\<close>, the wiki gives these answers.
\<close>

datatype ending =
    LastPage "json list"
  | Failure exn

fun serves :: "env \<Rightarrow> nat \<Rightarrow> json \<Rightarrow> (json list \<times> json) list \<Rightarrow> ending \<Rightarrow> bool" where
  "serves env n token [] (LastPage members) =
     (case api env n (list_params token) of
        Inr data \<Rightarrow> listing_page data = Some (members, None)
      | Inl e \<Rightarrow> False)"
| "serves env n token [] (Failure e) = (api env n (list_params token) = Inl e)"
| "serves env n token ((members, next) # pages) ending =
     (case api env n (list_params token) of
        Inr data \<Rightarrow> listing_page data = Some (members, Some next) \<and> serves env (Suc n) next pages ending
      | Inl e \<Rightarrow> False)"

text \<open>What the listing leaves behind: the members of its pages, the requests counted, the failure logged.\<close>

definition listed_members :: "(json list \<times> json) list \<Rightarrow> ending \<Rightarrow> json list" where
  "listed_members pages ending =
     concat (map fst pages) @ (case ending of LastPage members \<Rightarrow> members | Failure e \<Rightarrow> [])"

definition after_listing :: "(json list \<times> json) list \<Rightarrow> ending \<Rightarrow> world \<Rightarrow> world" where
  "after_listing pages ending w =
     (let w1 = w\<lparr>clock := clock w + length pages + 1\<rparr>
      in case ending of LastPage members \<Rightarrow> w1 | Failure e \<Rightarrow> logging (ListError e) w1)"

section \<open>The resolver and the outcome of tasks\<close>

text \<open>
  The two look-ups of lines 143 to 151 of \<open>process_item\<close> taken together, the Item
  Resolver of the specification: the URL found for the item, or \<^verbatim>\<open>None\<close>.
\<close>

definition resolve_image_url :: "env \<Rightarrow> json \<Rightarrow> world \<Rightarrow> (exn + json) \<times> world" where
  "resolve_image_url env item w =
     (case get_item_image env item w of
        (Inl e, w1) \<Rightarrow> (Inl e, w1)
      | (Inr image_title, w1) \<Rightarrow>
          if truthy image_title then
            (case get_image_url env image_title w1 of (url, w2) \<Rightarrow> (Inr url, w2))
          else (Inr JNull, w1))"

definition title_of :: "json \<Rightarrow> json" where
  "title_of item = (case py_getitem item ''title'' of Inr title \<Rightarrow> title | Inl e \<Rightarrow> JNull)"

definition has_title :: "json \<Rightarrow> bool" where
  "has_title item = (case py_getitem item ''title'' of Inr title \<Rightarrow> True | Inl e \<Rightarrow> False)"

definition is_str :: "json \<Rightarrow> bool" where
  "is_str v = (case v of JStr s \<Rightarrow> True | _ \<Rightarrow> False)"

text \<open>The results gathered from tasks that returned.\<close>

definition returned :: "json \<times> (exn + bool \<times> item_info) \<Rightarrow> bool" where
  "returned p = (case snd p of Inr r \<Rightarrow> True | Inl e \<Rightarrow> False)"

definition info_of :: "json \<times> (exn + bool \<times> item_info) \<Rightarrow> item_info" where
  "info_of p = (case snd p of Inr (success, info) \<Rightarrow> info
                | Inl e \<Rightarrow> \<lparr>name = JNull, imageUrl = JNull, localPath = JNull\<rparr>)"

section \<open>The selection in the words of the specification\<close>

text \<open>
  The selection as the specification words it: the file name extension, compared
  without regard to case, is \<^verbatim>\<open>.png\<close> or \<^verbatim>\<open>.gif\<close>.
\<close>

definition ends_with :: "string \<Rightarrow> string \<Rightarrow> bool" where
  "ends_with suffix s = (length suffix \<le> length s \<and> drop (length s - length suffix) s = suffix)"

definition spec_image_extension :: "string \<Rightarrow> bool" where
  "spec_image_extension title =
     (ends_with ''.png'' (lower title) \<or> ends_with ''.gif'' (lower title))"

section \<open>Example runs\<close>

text \<open>
  A wiki given by its answers; \<^verbatim>\<open>unquote\<close> leaves a string without a percent sign as
  it is, and the examples use no other.
\<close>

definition remote ::
  "(nat \<Rightarrow> params \<Rightarrow> exn + json) \<Rightarrow> (nat \<Rightarrow> string \<Rightarrow> exn + nat \<times> string)
     \<Rightarrow> (string \<Rightarrow> write_outcome) \<Rightarrow> env" where
  "remote a h d = \<lparr>api = a, http = h, disk = d, makedirs_ok = True,
                   unquote = (\<lambda>s. s), repr = (\<lambda>v. ''?''), schedule = (\<lambda>items. items)\<rparr>"

definition fresh :: world where
  "fresh = \<lparr>clock = 0, files = Map.empty, dirs = {}, log = []\<rparr>"

definition apple :: json where
  "apple = JObj [(''pageid'', JInt 101), (''ns'', JInt 0), (''title'', JStr ''Apple'')]"

definition images_answer :: "string list \<Rightarrow> json" where
  "images_answer ts =
     JObj [(''batchcomplete'', JStr []),
           (''query'', JObj [(''pages'', JObj [(''101'',
              JObj [(''pageid'', JInt 101), (''ns'', JInt 0), (''title'', JStr ''Apple''),
                    (''images'', JArr (map (\<lambda>t. JObj [(''ns'', JInt 6), (''title'', JStr t)]) ts))])])])]"

text \<open>A page with a JPEG whose name holds the letters png, listed before a real PNG.\<close>

definition png_in_name_env :: env where
  "png_in_name_env =
     remote (\<lambda>n ps. Inr (images_answer [''File:Apple.jpg'', ''File:Png apple.jpg'', ''File:Apple.PNG'']))
            (\<lambda>n url. Inl RequestException) (\<lambda>path. WriteOk)"

definition pear :: json where
  "pear = JObj [(''pageid'', JInt 102), (''ns'', JInt 0), (''title'', JStr ''Pear'')]"

definition plum :: json where
  "plum = JObj [(''pageid'', JInt 103), (''ns'', JInt 0), (''title'', JStr ''Plum'')]"

definition listing_answer :: "json list \<Rightarrow> json option \<Rightarrow> json" where
  "listing_answer members token =
     JObj ([(''batchcomplete'', JStr [])]
           @ (case token of
                None \<Rightarrow> []
              | Some t \<Rightarrow> [(''continue'', JObj [(''cmcontinue'', t), (''continue'', JStr ''-||'')])])
           @ [(''query'', JObj [(''categorymembers'', JArr members)])])"

text \<open>
  A listing of three pages, and the same listing with a third request that fails. The
  wiki answers by the token it is sent.
\<close>

definition three_pages_env :: env where
  "three_pages_env =
     remote (\<lambda>n ps. case map_of ps ''cmcontinue'' of
                None \<Rightarrow> Inr (listing_answer [apple] (Some (JStr ''page|Pear'')))
              | Some t \<Rightarrow>
                  if t = JStr ''page|Pear'' then Inr (listing_answer [pear] (Some (JStr ''page|Plum'')))
                  else if t = JStr ''page|Plum'' then Inr (listing_answer [plum] None)
                  else Inr (JObj [(''error'', JStr ''badcontinue'')]))
            (\<lambda>n url. Inl RequestException) (\<lambda>path. WriteOk)"

definition broken_listing_env :: env where
  "broken_listing_env =
     remote (\<lambda>n ps. case map_of ps ''cmcontinue'' of
                None \<Rightarrow> Inr (listing_answer [apple] (Some (JStr ''page|Pear'')))
              | Some t \<Rightarrow>
                  if t = JStr ''page|Pear'' then Inr (listing_answer [pear] (Some (JStr ''page|Plum'')))
                  else Inl RequestException)
            (\<lambda>n url. Inl RequestException) (\<lambda>path. WriteOk)"

text \<open>
  Downloads: a wiki whose file server answers every download with the given status and
  body, over a disk that behaves as given.
\<close>

definition file_server :: "nat \<Rightarrow> string \<Rightarrow> write_outcome \<Rightarrow> env" where
  "file_server status body outcome =
     remote (\<lambda>n ps. Inl RequestException) (\<lambda>n url. Inr (status, body)) (\<lambda>path. outcome)"

definition silent_server :: env where
  "silent_server = remote (\<lambda>n ps. Inl RequestException) (\<lambda>n url. Inl RequestException) (\<lambda>path. WriteOk)"

definition apple_url :: string where
  "apple_url = ''https://static.wiki.example/images/Apple.png''"

definition apple_path :: string where
  "apple_path = ''scripts/minecraft_items/Apple_Apple.png''"





text \<open>The wiki of the examples: one image per page, and the given answers for its URL and its download.\<close>

definition imageinfo_answer :: "json \<Rightarrow> json" where
  "imageinfo_answer url =
     JObj [(''batchcomplete'', JStr []),
           (''query'', JObj [(''pages'', JObj [(''2001'',
              JObj [(''pageid'', JInt 2001), (''ns'', JInt 6), (''title'', JStr ''File:Apple.png''),
                    (''imagerepository'', JStr ''local''),
                    (''imageinfo'', JArr [JObj [(''url'', url)]])])])])]"

definition apple_wiki :: "json \<Rightarrow> nat \<Rightarrow> env" where
  "apple_wiki url status =
     remote (\<lambda>n ps. case map_of ps ''prop'' of
                None \<Rightarrow> Inr (listing_answer [apple] None)
              | Some prop \<Rightarrow>
                  if prop = JStr ''images'' then Inr (images_answer [''File:Apple.png''])
                  else Inr (imageinfo_answer url))
            (\<lambda>n u. Inr (status, ''body'')) (\<lambda>path. WriteOk)"

text \<open>The catalog that a run leaves when the only item resolves and its download fails.\<close>

definition failed_apple_catalog :: string where
  "failed_apple_catalog =
     ''['' @ [CHR 0x0A]
     @ ''  {'' @ [CHR 0x0A]
     @ ''    '' @ [dquote] @ ''name'' @ [dquote] @ '': '' @ [dquote] @ ''Apple'' @ [dquote] @ '','' @ [CHR 0x0A]
     @ ''    '' @ [dquote] @ ''imageUrl'' @ [dquote] @ '': '' @ [dquote] @ apple_url @ [dquote] @ '','' @ [CHR 0x0A]
     @ ''    '' @ [dquote] @ ''localPath'' @ [dquote] @ '': '' @ [dquote] @ apple_path @ [dquote] @ [CHR 0x0A]
     @ ''  }'' @ [CHR 0x0A]
     @ '']''"

text \<open>
  A listing of three items, the second of which has no title, on a wiki that gives every
  page the image \<^verbatim>\<open>File:Apple.png\<close>.
\<close>

definition untitled :: json where
  "untitled = JObj [(''pageid'', JInt 7), (''ns'', JInt 0)]"

definition untitled_wiki :: env where
  "untitled_wiki =
     remote (\<lambda>n ps. case map_of ps ''prop'' of
                None \<Rightarrow> Inr (listing_answer [apple, untitled, pear] None)
              | Some prop \<Rightarrow>
                  if prop = JStr ''images'' then Inr (images_answer [''File:Apple.png''])
                  else Inr (imageinfo_answer (JStr apple_url)))
            (\<lambda>n u. Inr (200, ''body'')) (\<lambda>path. WriteOk)"

definition apple_info :: item_info where
  "apple_info = \<lparr>name = JStr ''Apple'', imageUrl = JStr apple_url, localPath = JNull\<rparr>"

definition pear_info :: item_info where
  "pear_info = \<lparr>name = JStr ''Pear'', imageUrl = JStr apple_url, localPath = JNull\<rparr>"

section \<open>Properties of sanitize_filename\<close>

lemma sanitize_filename_map:
  "sanitize_filename s = take 255 (map (\<lambda>c. if c \<in> set invalid_chars then CHR ''_'' else c) s)"
proof -
  have "foldl (\<lambda>f c. replace_char c (CHR ''_'') f) s invalid_chars =
        map (\<lambda>c. if c \<in> set invalid_chars then CHR ''_'' else c) s"
    by (simp add: invalid_chars_def replace_char_def)
  then show ?thesis
    by (simp add: sanitize_filename_def)
qed

lemma underscore_valid: "CHR ''_'' \<notin> set invalid_chars"
  by (simp add: invalid_chars_def)

lemma sanitize_filename_clean: "set (sanitize_filename s) \<inter> set invalid_chars = {}"
proof -
  have "set (map (\<lambda>c. if c \<in> set invalid_chars then CHR ''_'' else c) s) \<inter> set invalid_chars = {}"
    using underscore_valid by auto
  moreover have "set (sanitize_filename s)
      \<subseteq> set (map (\<lambda>c. if c \<in> set invalid_chars then CHR ''_'' else c) s)"
    unfolding sanitize_filename_map by (rule set_take_subset)
  ultimately show ?thesis by blast
qed

lemma sanitize_filename_length: "length (sanitize_filename s) \<le> 255"
  by (simp add: sanitize_filename_map)

lemma sanitize_filename_fixed:
  assumes "set s \<inter> set invalid_chars = {}" and "length s \<le> 255"
  shows "sanitize_filename s = s"
proof -
  have "map (\<lambda>c. if c \<in> set invalid_chars then CHR ''_'' else c) s = s"
    using assms(1) by (induction s) auto
  with assms(2) show ?thesis
    by (simp add: sanitize_filename_map)
qed

text \<open>
  Claim C10. sanitize_filename is idempotent: applying it to its own output changes
  nothing, because the output holds none of the replaced characters and has at most
  255 characters.
\<close>

theorem sanitize_filename_idempotent:
  "sanitize_filename (sanitize_filename s) = sanitize_filename s
   \<and> set (sanitize_filename s) \<inter> set invalid_chars = {}
   \<and> length (sanitize_filename s) \<le> 255"
  using sanitize_filename_fixed [OF sanitize_filename_clean sanitize_filename_length]
    sanitize_filename_clean sanitize_filename_length
  by blast

section \<open>Properties of get_item_image\<close>

lemma thn_Inl [simp]: "thn (Inl e) f = Inl e"
  by (simp add: thn_def)

lemma thn_Inr [simp]: "thn (Inr x) f = f x"
  by (simp add: thn_def)

lemma scan_images_titles:
  "image_title_list imgs = Some ts \<Longrightarrow>
   scan_images imgs = Inr (map_option JStr (find (\<lambda>t. png_or_gif (lower t)) ts))"
proof (induction imgs arbitrary: ts)
  case Nil
  then show ?case by simp
next
  case (Cons img rest)
  from Cons.prems obtain t ts' where
    t: "py_getitem img ''title'' = Inr (JStr t)" and
    rest: "image_title_list rest = Some ts'" and ts: "ts = t # ts'"
    by (auto split: sum.splits json.splits)
  show ?case
    using Cons.IH [OF rest] by (simp add: t ts)
qed

lemma contains_key:
  "py_contains k (JObj kv) = Inr (map_of kv k \<noteq> None)"
  by (simp add: map_of_eq_None_iff)

lemma find_append_case:
  "find P (xs @ ys) = (case find P xs of Some x \<Rightarrow> Some x | None \<Rightarrow> find P ys)"
  by (induction xs) auto

lemma scan_pages_titles:
  "pages_image_titles ps = Some ts \<Longrightarrow>
   scan_pages (map Inr ps) = Inr (map_option JStr (find (\<lambda>t. png_or_gif (lower t)) ts))"
proof (induction ps arbitrary: ts)
  case Nil
  then show ?case by simp
next
  case (Cons page rest)
  from Cons.prems obtain ts1 ts2 where
    p: "page_image_titles page = Some ts1" and
    r: "pages_image_titles rest = Some ts2" and ts: "ts = ts1 @ ts2"
    by (auto split: option.splits)
  from p obtain kv where kv: "page = JObj kv"
    by (auto simp: page_image_titles_def split: json.splits)
  show ?case
  proof (cases "map_of kv ''images''")
    case None
    with p kv have "ts1 = []" by (simp add: page_image_titles_def)
    with None kv ts Cons.IH [OF r] show ?thesis
      by (simp add: contains_key del: py_contains.simps)
  next
    case (Some v)
    with p kv obtain imgs where v: "v = JArr imgs" and il: "image_title_list imgs = Some ts1"
      by (auto simp: page_image_titles_def split: json.splits)
    show ?thesis
      using Some kv v ts Cons.IH [OF r] scan_images_titles [OF il]
      by (simp add: contains_key find_append_case del: py_contains.simps split: option.splits)
  qed
qed

lemma py_each_dict: "py_each (JObj pages) = Inr (map Inr (map snd pages))"
  by (simp add: case_prod_unfold comp_def)

text \<open>
  Claim C1, as the specification states it: the first image whose extension is
  \<^verbatim>\<open>.png\<close> or \<^verbatim>\<open>.gif\<close> is selected, and an image that only has png or gif somewhere
  in its name is not. The code selects \<^verbatim>\<open>File:Png apple.jpg\<close>, a JPEG, ahead of
  \<^verbatim>\<open>File:Apple.PNG\<close>.
\<close>

theorem get_item_image_extension_counterexample:
  "fst (get_item_image png_in_name_env apple fresh) = Inr (JStr ''File:Png apple.jpg'')
   \<and> \<not> spec_image_extension ''File:Png apple.jpg''
   \<and> spec_image_extension ''File:Apple.PNG''"
  by code_simp

text \<open>
  Claim C1, amended: for an item with a title and a well-formed answer to the
  page-images query, get_item_image returns the first image title, in the order of the
  answer, whose lower-case form contains \<^verbatim>\<open>png\<close> or \<^verbatim>\<open>gif\<close> anywhere, and \<^verbatim>\<open>None\<close> when
  no title does; it sends one request and logs nothing.
\<close>

theorem get_item_image_first_match:
  assumes "py_getitem item ''title'' = Inr title"
    and "api env (clock w) (image_params title) = Inr data"
    and "listed_image_titles data = Some ts"
  shows "get_item_image env item w = (Inr (first_png_or_gif ts), w\<lparr>clock := Suc (clock w)\<rparr>)"
proof -
  from assms(3) obtain query pages where
    q: "py_getitem data ''query'' = Inr query" and
    p: "py_getitem query ''pages'' = Inr (JObj pages)" and
    t: "pages_image_titles (map snd pages) = Some ts"
    by (auto simp: listed_image_titles_def split: sum.splits json.splits)
  have "find_image data = Inr (map_option JStr (find (\<lambda>t. png_or_gif (lower t)) ts))"
    unfolding find_image_def using scan_pages_titles [OF t]
    by (simp add: q p py_each_dict del: py_each.simps)
  then show ?thesis
    by (simp add: get_item_image_def api_get_def assms(1,2) first_png_or_gif_def split: option.splits)
qed

theorem get_item_image_first_match_witness:
  "get_item_image png_in_name_env apple fresh
     = (Inr (JStr ''File:Png apple.jpg''), fresh\<lparr>clock := 1\<rparr>)"
proof -
  have title: "py_getitem apple ''title'' = Inr (JStr ''Apple'')"
    by code_simp
  have answer: "api png_in_name_env (clock fresh) (image_params (JStr ''Apple''))
      = Inr (images_answer [''File:Apple.jpg'', ''File:Png apple.jpg'', ''File:Apple.PNG''])"
    by (simp add: png_in_name_env_def remote_def)
  have titles:
    "listed_image_titles (images_answer [''File:Apple.jpg'', ''File:Png apple.jpg'', ''File:Apple.PNG''])
      = Some [''File:Apple.jpg'', ''File:Png apple.jpg'', ''File:Apple.PNG'']"
    by code_simp
  have first: "first_png_or_gif [''File:Apple.jpg'', ''File:Png apple.jpg'', ''File:Apple.PNG'']
      = JStr ''File:Png apple.jpg''"
    by code_simp
  show ?thesis
    using get_item_image_first_match [OF title answer titles] by (simp add: first fresh_def)
qed

section \<open>Properties of get_item_list\<close>

lemma listing_page_fields:
  assumes "listing_page data = Some (members, token)"
  obtains kv query where "data = JObj kv" and "map_of kv ''query'' = Some (JObj query)"
    and "map_of query ''categorymembers'' = Some (JArr members)"
    and "(map_of kv ''continue'' = None \<and> token = None)
         \<or> (\<exists>cont. map_of kv ''continue'' = Some (JObj cont) \<and> token = map_of cont ''cmcontinue'')"
  using assms by (auto simp: listing_page_def split: json.splits option.splits)

lemma listing_page_extend:
  assumes "listing_page data = Some (members, token)"
  shows "extend_members data items = Inr (items @ members)"
  using assms
  by (elim listing_page_fields)
    (simp add: extend_members_def contains_key del: py_contains.simps)

lemma listing_page_token:
  assumes "listing_page data = Some (members, token)"
  shows "next_token data = Inr token"
  using assms
  by (elim listing_page_fields)
    (auto simp: next_token_def contains_key simp del: py_contains.simps split: option.splits)

lemma list_loop_serves:
  "serves env (clock w) token pages ending \<Longrightarrow>
   list_loop env items token w
     = Some (items @ listed_members pages ending, after_listing pages ending w)"
proof (induction pages arbitrary: w token items)
  case Nil
  show ?case
  proof (cases ending)
    case (LastPage members)
    with Nil obtain data where
      d: "api env (clock w) (list_params token) = Inr data" and
      p: "listing_page data = Some (members, None)"
      by (auto split: sum.splits)
    show ?thesis
      by (subst list_loop.simps)
        (simp add: api_get_def d listing_page_extend [OF p] listing_page_token [OF p]
          LastPage listed_members_def after_listing_def)
  next
    case (Failure e)
    with Nil have d: "api env (clock w) (list_params token) = Inl e"
      by simp
    show ?thesis
      by (subst list_loop.simps)
        (simp add: api_get_def d Failure listed_members_def after_listing_def)
  qed
next
  case (Cons page pages)
  obtain members nxt where page: "page = (members, nxt)"
    by (cases page)
  from Cons.prems page obtain data where
    d: "api env (clock w) (list_params token) = Inr data" and
    p: "listing_page data = Some (members, Some nxt)" and
    rest: "serves env (Suc (clock w)) nxt pages ending"
    by (auto split: sum.splits)
  have "list_loop env (items @ members) nxt (w\<lparr>clock := Suc (clock w)\<rparr>)
      = Some ((items @ members) @ listed_members pages ending,
              after_listing pages ending (w\<lparr>clock := Suc (clock w)\<rparr>))"
    by (rule Cons.IH) (simp add: rest)
  then show ?case
    by (subst list_loop.simps)
      (simp add: api_get_def d listing_page_extend [OF p] listing_page_token [OF p]
        page listed_members_def after_listing_def logging_def split: ending.splits)
qed

text \<open>
  Claim C5: for a listing of any number of pages, get_item_list returns and its result
  is the members of all pages, in order, when the last answer carries no continuation
  token; when a request raises, it returns the members of the pages completed before
  it, logs the failure and raises nothing.
\<close>

theorem get_item_list_pages:
  assumes "serves env (clock w) JNull pages ending"
  shows "get_item_list env w = Some (listed_members pages ending, after_listing pages ending w)"
  using list_loop_serves [OF assms, of "[]"] by (simp add: get_item_list_def)


theorem get_item_list_pages_witness:
  "get_item_list three_pages_env fresh = Some ([apple, pear, plum], fresh\<lparr>clock := 3\<rparr>)
   \<and> get_item_list broken_listing_env fresh
       = Some ([apple, pear], fresh\<lparr>clock := 3, log := [ListError RequestException]\<rparr>)"
proof -
  have whole: "serves three_pages_env (clock fresh) JNull
      [([apple], JStr ''page|Pear''), ([pear], JStr ''page|Plum'')] (LastPage [plum])"
    by code_simp
  have broken: "serves broken_listing_env (clock fresh) JNull
      [([apple], JStr ''page|Pear''), ([pear], JStr ''page|Plum'')] (Failure RequestException)"
    by code_simp
  show ?thesis
    using get_item_list_pages [OF whole] get_item_list_pages [OF broken]
    by (simp add: listed_members_def after_listing_def logging_def fresh_def)
qed

section \<open>Properties of download_image\<close>

text \<open>
  Claim C6, as the specification states it: every status outside 200 to 299 and every
  I/O error gives \<^verbatim>\<open>False\<close> and no file at the destination. The code lets a status 300
  through, writes the body and returns \<^verbatim>\<open>True\<close>; and when the write fails after the
  file was opened it returns \<^verbatim>\<open>False\<close> but leaves a file, here an empty one.
\<close>

theorem download_image_status_counterexample:
  "fst (download_image (file_server 300 ''choices'' WriteOk) apple_url apple_path fresh) = True
   \<and> files (snd (download_image (file_server 300 ''choices'' WriteOk) apple_url apple_path fresh))
         apple_path = Some ''choices''
   \<and> fst (download_image (file_server 200 ''PNG'' (WriteFails 0)) apple_url apple_path fresh) = False
   \<and> files (snd (download_image (file_server 200 ''PNG'' (WriteFails 0)) apple_url apple_path fresh))
         apple_path = Some []"
  by (simp add: download_image_def http_get_def raise_for_status_def write_file_def logging_def
      file_server_def remote_def fresh_def)

text \<open>
  Claim C6, amended: when the request raises (a timeout, a transport error), when the
  status is one of 400 to 599, or when the destination cannot be opened, download_image
  returns \<^verbatim>\<open>False\<close>, logs the error and leaves every file as it was; when the write
  fails after the file was opened it returns \<^verbatim>\<open>False\<close>, logs the error and leaves at
  the destination the part that was written; otherwise, for any other status, it writes
  the whole body to the destination and returns \<^verbatim>\<open>True\<close>. It never raises.
\<close>

theorem download_image_outcomes:
  "(http env (clock w) url = Inl e \<longrightarrow>
      fst (download_image env url filename w) = False
      \<and> files (snd (download_image env url filename w)) = files w
      \<and> log (snd (download_image env url filename w)) = log w @ [DownloadError url e])
   \<and> (http env (clock w) url = Inr (status, body) \<and> 400 \<le> status \<and> status < 600 \<longrightarrow>
      fst (download_image env url filename w) = False
      \<and> files (snd (download_image env url filename w)) = files w
      \<and> log (snd (download_image env url filename w)) = log w @ [DownloadError url HTTPError])
   \<and> (http env (clock w) url = Inr (status, body) \<and> \<not> (400 \<le> status \<and> status < 600) \<longrightarrow>
        (disk env filename = OpenFails \<longrightarrow>
           fst (download_image env url filename w) = False
           \<and> files (snd (download_image env url filename w)) = files w
           \<and> log (snd (download_image env url filename w)) = log w @ [DownloadError url OSError])
      \<and> (disk env filename = WriteFails n \<longrightarrow>
           fst (download_image env url filename w) = False
           \<and> files (snd (download_image env url filename w)) = (files w)(filename \<mapsto> take n body)
           \<and> log (snd (download_image env url filename w)) = log w @ [DownloadError url OSError])
      \<and> (disk env filename = WriteOk \<longrightarrow>
           fst (download_image env url filename w) = True
           \<and> files (snd (download_image env url filename w)) = (files w)(filename \<mapsto> body)
           \<and> log (snd (download_image env url filename w)) = log w @ [Downloaded filename]))"
  by (simp add: download_image_def http_get_def raise_for_status_def write_file_def logging_def)

theorem download_image_outcomes_witness:
  "fst (download_image silent_server apple_url apple_path fresh) = False
   \<and> files (snd (download_image silent_server apple_url apple_path fresh)) = files fresh
   \<and> fst (download_image (file_server 404 ''Not Found'' WriteOk) apple_url apple_path fresh) = False
   \<and> files (snd (download_image (file_server 404 ''Not Found'' WriteOk) apple_url apple_path fresh))
        = files fresh
   \<and> fst (download_image (file_server 200 ''PNG'' OpenFails) apple_url apple_path fresh) = False
   \<and> files (snd (download_image (file_server 200 ''PNG'' OpenFails) apple_url apple_path fresh))
        = files fresh
   \<and> fst (download_image (file_server 200 ''PNG'' (WriteFails 2)) apple_url apple_path fresh) = False
   \<and> files (snd (download_image (file_server 200 ''PNG'' (WriteFails 2)) apple_url apple_path fresh))
        = (files fresh)(apple_path \<mapsto> ''PN'')
   \<and> fst (download_image (file_server 200 ''PNG'' WriteOk) apple_url apple_path fresh) = True
   \<and> files (snd (download_image (file_server 200 ''PNG'' WriteOk) apple_url apple_path fresh))
        = (files fresh)(apple_path \<mapsto> ''PNG'')"
proof -
  have silent: "http silent_server (clock fresh) apple_url = Inl RequestException"
    by (simp add: silent_server_def remote_def)
  have answer: "http (file_server status body outcome) (clock fresh) apple_url = Inr (status, body)"
    and disk: "disk (file_server status body outcome) apple_path = outcome"
    for status body outcome
    by (simp_all add: file_server_def remote_def)
  show ?thesis
    using download_image_outcomes [of silent_server fresh apple_url RequestException apple_path]
      download_image_outcomes [of "file_server 404 ''Not Found'' WriteOk" fresh apple_url _ apple_path
        404 "''Not Found''"]
      download_image_outcomes [of "file_server 200 ''PNG'' OpenFails" fresh apple_url _ apple_path
        200 "''PNG''"]
      download_image_outcomes [of "file_server 200 ''PNG'' (WriteFails 2)" fresh apple_url _ apple_path
        200 "''PNG''" 2]
      download_image_outcomes [of "file_server 200 ''PNG'' WriteOk" fresh apple_url _ apple_path
        200 "''PNG''"]
    by (simp add: silent answer disk)
qed

section \<open>Properties of save_items_json\<close>








section \<open>Properties of process_item\<close>

lemma api_get_files: "files (snd (api_get env params w)) = files w"
  by (simp add: api_get_def)

lemma get_item_image_files: "files (snd (get_item_image env item w)) = files w"
  by (simp add: get_item_image_def api_get_def logging_def split: sum.splits option.splits prod.splits)

lemma get_image_url_files: "files (snd (get_image_url env image_title w)) = files w"
  by (simp add: get_image_url_def api_get_def logging_def split: sum.splits option.splits prod.splits)

lemma resolve_image_url_files: "files (snd (resolve_image_url env item w)) = files w"
proof (cases "get_item_image env item w")
  case (Pair r w1)
  then have w1: "files w1 = files w"
    using get_item_image_files [of env item w] by simp
  show ?thesis
  proof (cases r)
    case (Inl e)
    with Pair w1 show ?thesis by (simp add: resolve_image_url_def)
  next
    case (Inr image_title)
    show ?thesis
      using Pair Inr w1 get_image_url_files [of env image_title w1]
      by (auto simp: resolve_image_url_def split: prod.splits)
  qed
qed

lemma get_item_image_has_title:
  "get_item_image env item w = (Inr v, w1) \<Longrightarrow> has_title item"
  by (auto simp: get_item_image_def has_title_def split: sum.splits)

lemma resolve_image_url_has_title:
  "resolve_image_url env item w = (Inr v, w1) \<Longrightarrow> has_title item"
  by (auto simp: resolve_image_url_def split: prod.splits sum.splits if_splits
      dest: get_item_image_has_title)

lemma resolve_image_url_cases:
  obtains (raises) e w1 where "get_item_image env item w = (Inl e, w1)"
      and "resolve_image_url env item w = (Inl e, w1)"
  | (no_image) image_title w1 where "get_item_image env item w = (Inr image_title, w1)"
      and "\<not> truthy image_title" and "resolve_image_url env item w = (Inr JNull, w1)"
  | (looked_up) image_title w1 url w2 where "get_item_image env item w = (Inr image_title, w1)"
      and "truthy image_title" and "get_image_url env image_title w1 = (url, w2)"
      and "resolve_image_url env item w = (Inr url, w2)"
proof (cases "get_item_image env item w")
  case (Pair r w1)
  show ?thesis
  proof (cases r)
    case (Inl e)
    with Pair show ?thesis
      by (intro raises [of e w1]) (simp_all add: resolve_image_url_def)
  next
    case (Inr image_title)
    show ?thesis
    proof (cases "truthy image_title")
      case False
      with Pair Inr show ?thesis
        by (intro no_image [of image_title w1]) (simp_all add: resolve_image_url_def)
    next
      case True
      obtain url w2 where "get_image_url env image_title w1 = (url, w2)"
        by (cases "get_image_url env image_title w1")
      with Pair Inr True show ?thesis
        by (intro looked_up [of image_title w1 url w2]) (simp_all add: resolve_image_url_def)
    qed
  qed
qed

text \<open>process_item in terms of the resolver.\<close>

lemma process_item_resolved:
  assumes "resolve_image_url env item w = (Inr url, w1)"
  shows "process_item env item download_files w =
     (if truthy url then
        if download_files then
          (case url of
             JStr u \<Rightarrow>
               (case download_image env u (path_join SAVE_DIR (derive_filename env (title_of item) u)) w1 of
                  (ok, w2) \<Rightarrow>
                    (Inr (ok, \<lparr>name = title_of item, imageUrl = url,
                               localPath = JStr (path_join SAVE_DIR (derive_filename env (title_of item) u))\<rparr>),
                     w2))
           | _ \<Rightarrow> (Inl TypeError, w1))
        else (Inr (True, \<lparr>name = title_of item, imageUrl = url, localPath = JNull\<rparr>), w1)
      else (Inr (False, \<lparr>name = title_of item, imageUrl = JNull, localPath = JNull\<rparr>), w1))"
proof -
  from resolve_image_url_has_title [OF assms] obtain title where
    title: "py_getitem item ''title'' = Inr title"
    by (auto simp: has_title_def split: sum.splits)
  then have title_of: "title_of item = title"
    by (simp add: title_of_def)
  show ?thesis
  proof (cases rule: resolve_image_url_cases [of env item w])
    case (raises e w1')
    with assms show ?thesis by simp
  next
    case (no_image image_title w1')
    with assms have "url = JNull" and "w1' = w1" by simp_all
    with no_image show ?thesis
      by (simp add: process_item_def title title_of)
  next
    case (looked_up image_title w1' url' w2)
    with assms have "url' = url" and "w2 = w1" by simp_all
    with looked_up show ?thesis
      by (simp add: process_item_def title title_of Let_def split: json.splits prod.splits)
  qed
qed

lemma process_item_raised:
  assumes "resolve_image_url env item w = (Inl e, w1)"
  shows "process_item env item download_files w = (Inl e, w1)"
  using assms
  by (auto simp: resolve_image_url_def process_item_def split: prod.splits sum.splits if_splits)

text \<open>
  Claim C2 at a failing download. The item resolves, download is enabled and the file
  server answers 404: download_image returns \<^verbatim>\<open>False\<close> and nothing is written, yet the
  result carries the path in localPath, stored before the download started.
\<close>

theorem process_item_failed_download_keeps_local_path:
  "fst (process_item (apple_wiki (JStr apple_url) 404) apple True fresh)
     = Inr (False, \<lparr>name = JStr ''Apple'', imageUrl = JStr apple_url, localPath = JStr apple_path\<rparr>)
   \<and> log (snd (process_item (apple_wiki (JStr apple_url) 404) apple True fresh))
     = [DownloadError apple_url HTTPError]
   \<and> files (snd (process_item (apple_wiki (JStr apple_url) 404) apple True fresh)) apple_path = None"
  by code_simp

text \<open>
  Claim C3 at the same input, for the whole run: the item is counted as failed (no
  success, one failure), and its entry, with the URL and the path of a file that was
  never written, is in the catalog.
\<close>

theorem main_failed_download_stays_in_catalog:
  "map_option (\<lambda>(raised, w). (raised, log w, files w json_path, files w apple_path))
      (main (apple_wiki (JStr apple_url) 404) True fresh)
     = Some (None,
         [Listing, ItemsFound 1, DownloadError apple_url HTTPError, ItemFailed (JStr ''Apple''),
          CatalogSaved ''scripts/minecraft_items.json'', Summary 1 True 0 1],
         Some failed_apple_catalog, None)"
  by code_simp

text \<open>
  Claim C9, as the specification states it, for every URL that is not \<^verbatim>\<open>None\<close>. The
  wiki answers with the empty string as URL: the resolver returns it, and line 152
  (\<^verbatim>\<open>if image_url:\<close>) takes it for no URL, so the item fails with imageUrl \<^verbatim>\<open>None\<close>.
\<close>

theorem process_item_empty_url_counterexample:
  "fst (resolve_image_url (apple_wiki (JStr []) 200) apple fresh) = Inr (JStr [])
   \<and> JStr [] \<noteq> JNull
   \<and> fst (process_item (apple_wiki (JStr []) 200) apple False fresh)
       = Inr (False, \<lparr>name = JStr ''Apple'', imageUrl = JNull, localPath = JNull\<rparr>)"
  by code_simp

text \<open>
  Claim C9, amended: for every item whose resolver returns a URL that counts as true
  (a non-empty string), process_item with download disabled reports success, with the
  URL in imageUrl and \<^verbatim>\<open>None\<close> in localPath, and leaves every file as it was.
\<close>

theorem process_item_download_disabled:
  assumes "resolve_image_url env item w = (Inr url, w1)" and "truthy url"
  shows "process_item env item False w
           = (Inr (True, \<lparr>name = title_of item, imageUrl = url, localPath = JNull\<rparr>), w1)
         \<and> files w1 = files w"
proof -
  have "files w1 = files w"
    using resolve_image_url_files [of env item w] assms(1) by simp
  then show ?thesis
    by (simp add: process_item_resolved [OF assms(1)] assms(2))
qed

theorem process_item_download_disabled_witness:
  "fst (process_item (apple_wiki (JStr apple_url) 200) apple False fresh)
     = Inr (True, \<lparr>name = JStr ''Apple'', imageUrl = JStr apple_url, localPath = JNull\<rparr>)
   \<and> files (snd (process_item (apple_wiki (JStr apple_url) 200) apple False fresh)) = files fresh"
proof -
  have "fst (resolve_image_url (apple_wiki (JStr apple_url) 200) apple fresh) = Inr (JStr apple_url)"
    by code_simp
  then have resolved: "resolve_image_url (apple_wiki (JStr apple_url) 200) apple fresh
      = (Inr (JStr apple_url), snd (resolve_image_url (apple_wiki (JStr apple_url) 200) apple fresh))"
    by (metis prod.collapse)
  have true: "truthy (JStr apple_url)"
    by code_simp
  have title: "title_of apple = JStr ''Apple''"
    by code_simp
  show ?thesis
    using process_item_download_disabled [OF resolved true] by (simp add: title)
qed

section \<open>When a task raises\<close>

lemma get_item_image_raises:
  "get_item_image env item w = (Inl e, w1) \<Longrightarrow> \<not> has_title item"
  by (auto simp: get_item_image_def has_title_def split: sum.splits option.splits prod.splits)

text \<open>
  process_item raises in two cases only: the item has no title to read, or download is
  enabled and the resolver returned a value that is true but not a string.
\<close>

lemma process_item_raises_iff:
  "isl (fst (process_item env item download_files w)) \<longleftrightarrow>
     \<not> has_title item
     \<or> (download_files
        \<and> (case fst (resolve_image_url env item w) of
             Inr url \<Rightarrow> truthy url \<and> \<not> is_str url
           | Inl e \<Rightarrow> False))"
proof (cases "resolve_image_url env item w")
  case (Pair r w1)
  show ?thesis
  proof (cases r)
    case (Inl e)
    with Pair have res: "resolve_image_url env item w = (Inl e, w1)"
      by simp
    then have "get_item_image env item w = (Inl e, w1)"
      by (auto simp: resolve_image_url_def split: prod.splits sum.splits if_splits)
    then have "\<not> has_title item"
      by (rule get_item_image_raises)
    then show ?thesis
      by (simp add: process_item_raised [OF res])
  next
    case (Inr url)
    with Pair have res: "resolve_image_url env item w = (Inr url, w1)"
      by simp
    have "has_title item"
      using res by (rule resolve_image_url_has_title)
    then show ?thesis
      by (auto simp: process_item_resolved [OF res] res is_str_def split: json.splits prod.splits)
  qed
qed

text \<open>With download disabled, the tasks of items that have a title all return.\<close>

lemma run_tasks_without_download_return:
  "list_all has_title completed \<Longrightarrow> list_all returned (fst (run_tasks env False completed w))"
proof (induction completed arbitrary: w)
  case Nil
  show ?case by simp
next
  case (Cons item rest)
  obtain r w1 where first: "process_item env item False w = (r, w1)"
    by (cases "process_item env item False w")
  obtain rs w2 where others: "run_tasks env False rest w1 = (rs, w2)"
    by (cases "run_tasks env False rest w1")
  from Cons.prems have "has_title item" and rest: "list_all has_title rest"
    by simp_all
  then have "\<not> isl (fst (process_item env item False w))"
    by (simp add: process_item_raises_iff)
  with first have "returned (item, r)"
    by (cases r) (simp_all add: returned_def)
  moreover from Cons.IH [OF rest, of w1] others have "list_all returned rs"
    by simp
  ultimately show ?case
    using first others by simp
qed

section \<open>Properties of the worker pool\<close>

lemma process_item_returns_has_title:
  assumes "process_item env item download_files w = (Inr r, w1)"
  shows "has_title item"
proof (cases "py_getitem item ''title''")
  case (Inl e)
  then have "fst (process_item env item download_files w) = Inl e"
    by (simp add: process_item_def get_item_image_def)
  with assms show ?thesis by simp
next
  case (Inr title)
  then show ?thesis by (simp add: has_title_def)
qed

lemma run_tasks_items: "map fst (fst (run_tasks env download_files completed w)) = completed"
proof (induction completed arbitrary: w)
  case Nil
  show ?case by simp
next
  case (Cons item rest)
  obtain r w1 where first: "process_item env item download_files w = (r, w1)"
    by (cases "process_item env item download_files w")
  obtain rs w2 where others: "run_tasks env download_files rest w1 = (rs, w2)"
    by (cases "run_tasks env download_files rest w1")
  from Cons.IH [of w1] others have "map fst rs = rest"
    by simp
  with first others show ?case
    by simp
qed

lemma run_tasks_returned_has_title:
  "p \<in> set (fst (run_tasks env download_files completed w)) \<Longrightarrow> returned p \<Longrightarrow> has_title (fst p)"
proof (induction completed arbitrary: w)
  case Nil
  then show ?case by simp
next
  case (Cons item rest)
  obtain r w1 where first: "process_item env item download_files w = (r, w1)"
    by (cases "process_item env item download_files w")
  obtain rs w2 where others: "run_tasks env download_files rest w1 = (rs, w2)"
    by (cases "run_tasks env download_files rest w1")
  from Cons.prems(1) first others have "p = (item, r) \<or> p \<in> set rs"
    by simp
  then show ?case
  proof
    assume p: "p = (item, r)"
    with Cons.prems(2) obtain v where "r = Inr v"
      by (auto simp: returned_def split: sum.splits)
    with first p show ?thesis
      by (auto dest: process_item_returns_has_title)
  next
    assume "p \<in> set rs"
    with others Cons.IH [of w1] Cons.prems(2) show ?thesis
      by simp
  qed
qed


lemma collect_returned:
  assumes "list_all (\<lambda>p. returned p \<and> has_title (fst p)) results"
  shows "\<exists>t1 w1. collect download_files (results @ later) t w = collect download_files later t1 w1
           \<and> items_info t1 = items_info t @ map info_of results
           \<and> successful_downloads t1 + failed_downloads t1
               = successful_downloads t + failed_downloads t + length results
           \<and> files w1 = files w"
  using assms
proof (induction results arbitrary: t w)
  case Nil
  show ?case
    by (intro exI [of _ t] exI [of _ w]) simp
next
  case (Cons p results)
  obtain item r where p: "p = (item, r)"
    by (cases p)
  with Cons.prems obtain success info title where
    r: "r = Inr (success, info)" and title: "py_getitem item ''title'' = Inr title"
    by (auto simp: returned_def has_title_def split: sum.splits)
  from Cons.prems have rest: "list_all (\<lambda>p. returned p \<and> has_title (fst p)) results"
    by simp
  define t0 where "t0 = t\<lparr>items_info := items_info t @ [info]\<rparr>"
  show ?case
  proof (cases success)
    case True
    from Cons.IH [OF rest, of "t0\<lparr>successful_downloads := Suc (successful_downloads t0)\<rparr>"
        "logging (if download_files then ItemProcessed (name info) else ItemInfoObtained (name info)) w"]
    show ?thesis
      by (auto simp: p r True t0_def info_of_def logging_def Let_def)
  next
    case False
    from Cons.IH [OF rest, of "t0\<lparr>failed_downloads := Suc (failed_downloads t0)\<rparr>"
        "logging (ItemFailed title) w"]
    show ?thesis
      by (auto simp: p r False title t0_def info_of_def logging_def Let_def)
  qed
qed

lemma run_tasks_returned:
  assumes "list_all returned results" and "set results \<subseteq> set (fst (run_tasks env download_files completed w))"
  shows "list_all (\<lambda>p. returned p \<and> has_title (fst p)) results"
  using assms run_tasks_returned_has_title [of _ env download_files completed w]
  by (auto simp: list_all_iff)

text \<open>
  Claim C4, as the specification states it: a task that raises is recorded as a failure
  and the results of the other tasks are still collected. In the code the item without
  a title makes its task raise KeyError; the loop over the results ends there with one
  result collected, no failure counted and the third item never read, and the run ends
  with the exception before the catalog is written.
\<close>

theorem process_all_fault_counterexample:
  "fst (process_all untitled_wiki False [apple, untitled, pear] fresh)
     = (Some KeyError, \<lparr>successful_downloads = 1, failed_downloads = 0, items_info = [apple_info]\<rparr>)
   \<and> map_option (\<lambda>(raised, w). (raised, log w, files w json_path)) (main untitled_wiki False fresh)
     = Some (Some KeyError, [Listing, ItemsFound 3, ItemInfoObtained (JStr ''Apple'')], None)"
  by code_simp

text \<open>
  Claim C4, amended: every task runs to its end, and when one of them raises, the loop
  over the results re-raises its exception on reaching it: the results read before it
  are in the list and counted, the item of the faulty task is neither recorded nor
  counted, the results after it are not read, the collection changes no file, and the
  run ends with the exception, the catalog unwritten.
\<close>

theorem main_fault_ends_run:
  assumes "(if download_files then ensure_dir env SAVE_DIR w else (None, w)) = (None, w0)"
    and "get_item_list env (logging Listing w0) = Some (items, w1)"
    and "run_tasks env download_files (schedule env items) (logging (ItemsFound (length items)) w1)
           = (before @ (item, Inl e) # rest, w2)"
    and "list_all returned before"
  shows "\<exists>t w3.
           process_all env download_files (schedule env items) (logging (ItemsFound (length items)) w1)
             = ((Some e, t), w3)
           \<and> items_info t = map info_of before
           \<and> successful_downloads t + failed_downloads t = length before
           \<and> files w3 = files w2
           \<and> main env download_files w = Some (Some e, w3)"
proof -
  let ?completed = "schedule env items"
  let ?start = "logging (ItemsFound (length items)) w1"
  have "list_all (\<lambda>p. returned p \<and> has_title (fst p)) before"
    using assms(3,4)
    by (intro run_tasks_returned [of _ env download_files ?completed ?start]) auto
  from collect_returned [OF this, of download_files "(item, Inl e) # rest" empty_tally w2]
  obtain t w3 where
    "collect download_files (before @ (item, Inl e) # rest) empty_tally w2
       = collect download_files ((item, Inl e) # rest) t w3"
    and t: "items_info t = map info_of before"
      "successful_downloads t + failed_downloads t = length before"
    and w3: "files w3 = files w2"
    by (auto simp: empty_tally_def)
  then have all: "process_all env download_files ?completed ?start = ((Some e, t), w3)"
    by (simp add: process_all_def assms(3))
  have "main env download_files w = Some (Some e, w3)"
    by (simp add: main_def assms(1,2) all)
  with all t w3 show ?thesis
    by blast
qed

theorem main_fault_ends_run_witness:
  "map_option fst (main untitled_wiki False fresh) = Some (Some KeyError)
   \<and> map_option (\<lambda>(raised, w). files w json_path) (main untitled_wiki False fresh) = Some None"
proof -
  let ?listed = "\<lparr>clock = 1, files = Map.empty, dirs = {}, log = [Listing]\<rparr>"
  have dir: "(if False then ensure_dir untitled_wiki SAVE_DIR fresh else (None, fresh)) = (None, fresh)"
    by simp
  have "serves untitled_wiki (clock (logging Listing fresh)) JNull [] (LastPage [apple, untitled, pear])"
    by code_simp
  from list_loop_serves [OF this, of "[]"]
  have listing: "get_item_list untitled_wiki (logging Listing fresh) = Some ([apple, untitled, pear], ?listed)"
    by (simp add: get_item_list_def listed_members_def after_listing_def logging_def fresh_def)
  have "fst (run_tasks untitled_wiki False (schedule untitled_wiki [apple, untitled, pear])
               (logging (ItemsFound (length [apple, untitled, pear])) ?listed))
          = [(apple, Inr (True, apple_info))] @ (untitled, Inl KeyError) # [(pear, Inr (True, pear_info))]"
    by code_simp
  then have
    tasks: "run_tasks untitled_wiki False (schedule untitled_wiki [apple, untitled, pear])
              (logging (ItemsFound (length [apple, untitled, pear])) ?listed)
            = ([(apple, Inr (True, apple_info))] @ (untitled, Inl KeyError) # [(pear, Inr (True, pear_info))],
               snd (run_tasks untitled_wiki False (schedule untitled_wiki [apple, untitled, pear])
                 (logging (ItemsFound (length [apple, untitled, pear])) ?listed)))"
    by (metis prod.collapse)
  have unwritten: "files (snd (run_tasks untitled_wiki False (schedule untitled_wiki [apple, untitled, pear])
              (logging (ItemsFound (length [apple, untitled, pear])) ?listed))) json_path = None"
    by code_simp
  have good: "list_all returned [(apple, Inr (True, apple_info))]"
    by code_simp
  from main_fault_ends_run [OF dir listing tasks good]
  obtain w3 where "main untitled_wiki False fresh = Some (Some KeyError, w3)"
    and "files w3 = files (snd (run_tasks untitled_wiki False (schedule untitled_wiki [apple, untitled, pear])
              (logging (ItemsFound (length [apple, untitled, pear])) ?listed)))"
    by blast
  with unwritten show ?thesis
    by simp
qed

text \<open>
  Claim C7, as the specification states it, for every sequence of items: with the item
  without a title among three, the list of results has one entry, not three.
\<close>

theorem process_all_count_counterexample:
  "length (items_info (snd (fst (process_all untitled_wiki False [apple, untitled, pear] fresh)))) = 1
   \<and> length [apple, untitled, pear] = 3"
  by code_simp

text \<open>
  Claim C7, amended: whenever no task raises, whatever the number of look-ups and
  downloads that failed inside the tasks, the list of results has exactly one entry per
  item, and every item is counted once, as a success or as a failure.
\<close>

theorem process_all_one_result_per_item:
  assumes "mset completed = mset items"
    and "list_all returned (fst (run_tasks env download_files completed w))"
  shows "fst (fst (process_all env download_files completed w)) = None
         \<and> length (items_info (snd (fst (process_all env download_files completed w)))) = length items
         \<and> successful_downloads (snd (fst (process_all env download_files completed w)))
             + failed_downloads (snd (fst (process_all env download_files completed w)))
             = length items"
proof -
  obtain results w1 where run: "run_tasks env download_files completed w = (results, w1)"
    by (cases "run_tasks env download_files completed w")
  have "length results = length completed"
    using run_tasks_items [of env download_files completed w] run
    by (metis fst_conv length_map)
  moreover have "length completed = length items"
    using assms(1) by (metis size_mset)
  ultimately have len: "length results = length items"
    by simp
  have "list_all (\<lambda>p. returned p \<and> has_title (fst p)) results"
    using assms(2) run
    by (intro run_tasks_returned [of _ env download_files completed w]) auto
  from collect_returned [OF this, of download_files "[]" empty_tally w1]
  obtain t1 w2 where
    "collect download_files results empty_tally w1 = ((None, t1), w2)"
    and "length (items_info t1) = length results"
    and "successful_downloads t1 + failed_downloads t1 = length results"
    by (auto simp: empty_tally_def)
  then show ?thesis
    by (simp add: process_all_def run len)
qed

theorem process_all_one_result_per_item_witness:
  "fst (fst (process_all (apple_wiki (JStr apple_url) 404) True [pear, apple] fresh)) = None
   \<and> length (items_info (snd (fst (process_all (apple_wiki (JStr apple_url) 404) True [pear, apple] fresh))))
       = length [apple, pear]
   \<and> successful_downloads (snd (fst (process_all (apple_wiki (JStr apple_url) 404) True [pear, apple] fresh)))
       + failed_downloads (snd (fst (process_all (apple_wiki (JStr apple_url) 404) True [pear, apple] fresh)))
       = length [apple, pear]
   \<and> failed_downloads (snd (fst (process_all (apple_wiki (JStr apple_url) 404) True [pear, apple] fresh))) = 2"
proof -
  have order: "mset [pear, apple] = mset [apple, pear]"
    by simp
  have good: "list_all returned (fst (run_tasks (apple_wiki (JStr apple_url) 404) True [pear, apple] fresh))"
    by code_simp
  have failed: "failed_downloads (snd (fst (process_all (apple_wiki (JStr apple_url) 404) True [pear, apple] fresh))) = 2"
    by code_simp
  show ?thesis
    using process_all_one_result_per_item [OF order good] failed by simp
qed

end
